theory Spec2Isabelle
  imports Complex_Main "HOL-Library.Sublist" "HOL-Library.Multiset" "HOL-Library.AList"
begin

section \<open>Text primitives of the host language\<close>


definition lower_letters :: string where
  "lower_letters = ''abcdefghijklmnopqrstuvwxyz''"

definition upper_letters :: string where
  "upper_letters = ''ABCDEFGHIJKLMNOPQRSTUVWXYZ''"

definition upperChar :: "char \<Rightarrow> char" where
  "upperChar c = (case map_of (zip lower_letters upper_letters) c of Some u \<Rightarrow> u | None \<Rightarrow> c)"

definition lowerChar :: "char \<Rightarrow> char" where
  "lowerChar c = (case map_of (zip upper_letters lower_letters) c of Some l \<Rightarrow> l | None \<Rightarrow> c)"

definition toUpperCase :: "string \<Rightarrow> string" where
  "toUpperCase s = map upperChar s"

definition toLowerCase :: "string \<Rightarrow> string" where
  "toLowerCase s = map lowerChar s"

definition isSpace :: "char \<Rightarrow> bool" where
  "isSpace c \<longleftrightarrow> c \<in> {CHR 0x09, CHR 0x0A, CHR 0x0B, CHR 0x0C, CHR 0x0D, CHR 0x20}"

text \<open>\<^verbatim>\<open>s.trim()\<close>: white space removed at both ends.\<close>

definition trim :: "string \<Rightarrow> string" where
  "trim s = rev (dropWhile isSpace (rev (dropWhile isSpace s)))"

text \<open>\<^verbatim>\<open>s.includes(k)\<close>: \<open>k\<close> occurs in \<open>s\<close> as a contiguous block.\<close>

fun includes_str :: "string \<Rightarrow> string \<Rightarrow> bool" where
  "includes_str [] k = (k = [])"
| "includes_str (c # cs) k = (prefix k (c # cs) \<or> includes_str cs k)"

section \<open>Address cleaning and region classification\<close>

text \<open>\<^verbatim>\<open>.replace(/\n/g, ', ')\<close>\<close>

fun replace_newlines :: "string \<Rightarrow> string" where
  "replace_newlines [] = []"
| "replace_newlines (c # cs) =
     (if c = CHR 0x0A then '', '' @ replace_newlines cs else c # replace_newlines cs)"

text \<open>
  \<^verbatim>\<open>.replace(/,\s*,/g, ',')\<close>: scanning from the left, a comma followed by white
  space and a second comma is replaced by one comma, and the scan goes on behind the
  second comma; matches do not overlap.
\<close>

function collapse_commas :: "string \<Rightarrow> string" where
  "collapse_commas [] = []"
| "collapse_commas (c # cs) =
     (if c = CHR '','' then
        (case dropWhile isSpace cs of
           [] \<Rightarrow> c # collapse_commas cs
         | d # ds \<Rightarrow> if d = CHR '','' then CHR '','' # collapse_commas ds
                    else c # collapse_commas cs)
      else c # collapse_commas cs)"
  by pat_completeness auto
termination
proof (relation "measure length")
  fix c :: char and cs d ds
  assume "dropWhile isSpace cs = d # ds"
  then have "length (d # ds) \<le> length cs"
    by (metis length_dropWhile_le)
  then show "(ds, c # cs) \<in> measure length" by simp
qed simp_all

text \<open>
  \<^verbatim>\<open>.replace(/,\s*$/, '')\<close>: the leftmost comma that has only white space behind
  it is removed together with that white space.
\<close>

fun strip_trailing_comma :: "string \<Rightarrow> string" where
  "strip_trailing_comma [] = []"
| "strip_trailing_comma (c # cs) =
     (if c = CHR '','' \<and> list_all isSpace cs then [] else c # strip_trailing_comma cs)"

definition cleanAddress :: "string \<Rightarrow> string" where
  "cleanAddress address =
     (if address = [] then []
      else strip_trailing_comma (collapse_commas (replace_newlines (trim address))))"

text \<open>The region codes that \<^verbatim>\<open>extractState\<close> can return.\<close>

datatype region = NSW | QLD | VIC | SA | WA | TAS | NT | ACT | Singapore | Dubai | Unknown

text \<open>The entries of \<^verbatim>\<open>stateMap\<close>, in the insertion order that \<^verbatim>\<open>Object.entries\<close> walks.\<close>

definition stateMap :: "(string \<times> region) list" where
  "stateMap = [(''NSW'', NSW), (''QLD'', QLD), (''VIC'', VIC), (''SA'', SA),
               (''WA'', WA), (''TAS'', TAS), (''NT'', NT), (''ACT'', ACT)]"

fun first_state :: "(string \<times> region) list \<Rightarrow> string \<Rightarrow> region option" where
  "first_state [] address = None"
| "first_state ((key, val) # rest) address =
     (if includes_str (toUpperCase address) key then Some val else first_state rest address)"

definition extractState :: "string \<Rightarrow> region" where
  "extractState address =
     (if address = [] then Unknown
      else case first_state stateMap address of
             Some v \<Rightarrow> v
           | None \<Rightarrow>
               if includes_str (toLowerCase address) ''singapore'' then Singapore
               else if includes_str (toLowerCase address) ''dubai'' then Dubai
               else Unknown)"

section \<open>Records, caches and the outside world\<close>

text \<open>
  Coordinates are opaque to the loader: it stores and passes them on and never
  computes with them. The literals of \<^verbatim>\<open>fallbackCoords\<close> are kept as decimal
  fractions.
\<close>

record coords =
  lat :: rat
  lng :: rat

definition fallbackCoords :: "(region \<times> coords) list" where
  "fallbackCoords =
     [(NSW, \<lparr>lat = - 338688 / 10000, lng = 1512093 / 10000\<rparr>),
      (QLD, \<lparr>lat = - 274698 / 10000, lng = 1530251 / 10000\<rparr>),
      (VIC, \<lparr>lat = - 378136 / 10000, lng = 1449631 / 10000\<rparr>),
      (SA, \<lparr>lat = - 349285 / 10000, lng = 1386007 / 10000\<rparr>),
      (WA, \<lparr>lat = - 319505 / 10000, lng = 1158605 / 10000\<rparr>),
      (TAS, \<lparr>lat = - 428821 / 10000, lng = 1473272 / 10000\<rparr>),
      (NT, \<lparr>lat = - 124634 / 10000, lng = 1308456 / 10000\<rparr>),
      (ACT, \<lparr>lat = - 352809 / 10000, lng = 1491300 / 10000\<rparr>),
      (Singapore, \<lparr>lat = 13521 / 10000, lng = 1038198 / 10000\<rparr>),
      (Dubai, \<lparr>lat = 252048 / 10000, lng = 552708 / 10000\<rparr>),
      (Unknown, \<lparr>lat = - 252744 / 10000, lng = 1337751 / 10000\<rparr>)]"

text \<open>
  A parsed CSV row maps a column name to its text; a column that the row lacks is
  \<open>None\<close> (\<^verbatim>\<open>undefined\<close> in the source).
\<close>

type_synonym raw_row = "string \<rightharpoonup> string"

datatype map_display = Both | ClientOnly | Skip

text \<open>
  The object built by \<^verbatim>\<open>processData\<close>, and its extension by \<^verbatim>\<open>addGeocoding\<close>.
  The two flags hold the truthiness of the source's \<^verbatim>\<open>hasClientAddress\<close> and
  \<^verbatim>\<open>hasPropertyAddress\<close>, which is all any reader of them tests. \<open>year\<close> is
  \<open>None\<close> for the source's \<^verbatim>\<open>null\<close>.
\<close>

record cleaned =
  name :: string
  clientAddress :: string
  propertyAddress :: string
  serviceType :: string
  dateSigned :: string
  datePurchase :: string
  email :: string
  notesText :: string
  clientState :: region
  propertyState :: region
  hasClientLocation :: bool
  hasPropertyLocation :: bool
  mapDisplayType :: map_display
  year :: "string option"

record geocoded = cleaned +
  clientCoords :: "coords option"
  propertyCoords :: "coords option"
  isInterstate :: bool

text \<open>
  The browser's \<^verbatim>\<open>localStorage\<close>, as far as the loader uses it: the one entry
  \<^verbatim>\<open>'geocodeCache'\<close>, and whether reading or writing it throws (storage disabled,
  quota exceeded). The stored text is represented by what it denotes: \<open>Entries m\<close>
  for the key-value pairs written by \<^verbatim>\<open>saveGeocodeCache\<close> (a value may be
  \<^verbatim>\<open>null\<close>), \<open>Garbage\<close> for any text that \<^verbatim>\<open>JSON.parse\<close> or the \<^verbatim>\<open>Map\<close>
  constructor rejects. Both \<^verbatim>\<open>Map\<close>s of the loader are modelled as maps: the
  order of their entries is never observed.
\<close>

type_synonym geocode_map = "string \<rightharpoonup> coords option"

datatype stored = Entries geocode_map | Garbage

record local_storage =
  item :: "stored option"
  getItem_throws :: bool
  setItem_throws :: bool

datatype error =
    LoadFailed string string
  | NetworkError string
  | BodyError string
  | ParseError string

text \<open>
  What the outside world answers during one run. \<open>google\<close> says whether
  \<^verbatim>\<open>window.google\<close> is there. \<open>geocode\<close> gives, for an address, either the
  arguments that the geocoder passes to the callback or \<open>Throws\<close> when creating or
  calling the geocoder throws. \<open>fetch\<close> answers \<^verbatim>\<open>fetch('data/<year>.csv')\<close>, and
  \<open>papa\<close> is the CSV parser with the options of \<^verbatim>\<open>parseCSV\<close> applied.
\<close>

datatype geocode_outcome = Callback "coords list" string | Throws

datatype fetch_outcome = Rejects string | Response bool string "error + string"

record env =
  google :: bool
  geocode :: "string \<Rightarrow> geocode_outcome"
  fetch :: "string \<Rightarrow> fetch_outcome"
  papa :: "string \<Rightarrow> error + raw_row list"

text \<open>
  The state that the loader reads and writes: its two caches, the storage, and a
  log of the addresses for which the external geocoder was called (the log is not
  in the source; it makes the calls observable).
\<close>

record loader =
  cache :: "string \<rightharpoonup> geocoded list"
  geocodeCache :: geocode_map
  localStorage :: local_storage
  geocoder_calls :: "string list"

definition loadGeocodeCache :: "local_storage \<Rightarrow> geocode_map" where
  "loadGeocodeCache ls =
     (if getItem_throws ls then Map.empty
      else case item ls of
             None \<Rightarrow> Map.empty
           | Some Garbage \<Rightarrow> Map.empty
           | Some (Entries m) \<Rightarrow> m)"

definition saveGeocodeCache :: "loader \<Rightarrow> loader" where
  "saveGeocodeCache st =
     (if setItem_throws (localStorage st) then st
      else st\<lparr>localStorage := (localStorage st)\<lparr>item := Some (Entries (geocodeCache st))\<rparr>\<rparr>)"

text \<open>\<^verbatim>\<open>this.geocodeCache.set(key, value)\<close>\<close>

definition geocodeCache_set :: "string \<Rightarrow> coords option \<Rightarrow> loader \<Rightarrow> loader" where
  "geocodeCache_set key v st = st\<lparr>geocodeCache := (geocodeCache st)(key \<mapsto> v)\<rparr>"

text \<open>The constructor: empty year cache, geocode cache read from storage.\<close>

definition new_DataLoader :: "local_storage \<Rightarrow> loader" where
  "new_DataLoader ls =
     \<lparr>cache = Map.empty, geocodeCache = loadGeocodeCache ls, localStorage = ls,
      geocoder_calls = []\<rparr>"

section \<open>Geocoding\<close>

definition geocodeAddress :: "env \<Rightarrow> string \<Rightarrow> loader \<Rightarrow> coords option \<times> loader" where
  "geocodeAddress e address st =
     (if address = [] \<or> \<not> google e then (None, st)
      else
        let cacheKey = toLowerCase address in
        case geocodeCache st cacheKey of
          Some hit \<Rightarrow> (hit, st)
        | None \<Rightarrow>
            let called = st\<lparr>geocoder_calls := geocoder_calls st @ [address]\<rparr> in
            (case geocode e address of
               Throws \<Rightarrow> (None, called)
             | Callback results status \<Rightarrow>
                 let result = (if status = ''OK'' \<and> results \<noteq> [] then Some (hd results) else None);
                     st1 = geocodeCache_set cacheKey result called
                 in (result, saveGeocodeCache st1)))"

text \<open>\<^verbatim>\<open>a || fallbackCoords[state] || fallbackCoords['Unknown']\<close>\<close>

definition or_fallback :: "coords option \<Rightarrow> region \<Rightarrow> coords option" where
  "or_fallback found state =
     (case found of
        Some c \<Rightarrow> Some c
      | None \<Rightarrow>
          (case map_of fallbackCoords state of
             Some c \<Rightarrow> Some c
           | None \<Rightarrow> map_of fallbackCoords Unknown))"

definition geocode_row :: "env \<Rightarrow> cleaned \<Rightarrow> loader \<Rightarrow> geocoded \<times> loader" where
  "geocode_row e row st =
     (let (clientCoords', st1) =
            (if hasClientLocation row \<and> clientAddress row \<noteq> [] then
               (let (found, s) = geocodeAddress e (clientAddress row) st
                in (or_fallback found (clientState row), s))
             else (None, st));
          (propertyCoords', st2) =
            (if hasPropertyLocation row \<and> propertyAddress row \<noteq> [] then
               (let (found, s) = geocodeAddress e (propertyAddress row) st1
                in (or_fallback found (propertyState row), s))
             else (None, st1))
      in (cleaned.extend row
            \<lparr>clientCoords = clientCoords', propertyCoords = propertyCoords',
             isInterstate = (clientState row \<noteq> Unknown \<and> propertyState row \<noteq> Unknown \<and>
                             clientState row \<noteq> propertyState row)\<rparr>,
          st2))"

fun addGeocoding :: "env \<Rightarrow> cleaned list \<Rightarrow> loader \<Rightarrow> geocoded list \<times> loader" where
  "addGeocoding e [] st = ([], st)"
| "addGeocoding e (row # rows) st =
     (let (g, st1) = geocode_row e row st;
          (gs, st2) = addGeocoding e rows st1
      in (g # gs, st2))"

section \<open>Row processing\<close>

definition truthy :: "string option \<Rightarrow> bool" where
  "truthy v = (case v of None \<Rightarrow> False | Some s \<Rightarrow> s \<noteq> [])"

text \<open>\<^verbatim>\<open>row[f]?.trim() || dflt\<close>\<close>

definition trimmed_or :: "raw_row \<Rightarrow> string \<Rightarrow> string \<Rightarrow> string" where
  "trimmed_or row f dflt =
     (case row f of None \<Rightarrow> dflt | Some s \<Rightarrow> if trim s = [] then dflt else trim s)"

definition determineMapDisplayType :: "bool \<Rightarrow> bool \<Rightarrow> map_display" where
  "determineMapDisplayType hasClientAddress hasPropertyAddress =
     (if hasClientAddress \<and> hasPropertyAddress then Both
      else if hasClientAddress \<and> \<not> hasPropertyAddress then ClientOnly
      else if \<not> hasClientAddress \<and> hasPropertyAddress then Skip
      else Skip)"

definition has_name :: "raw_row \<Rightarrow> bool" where
  "has_name row = (truthy (row ''Name'') \<and> trim (the (row ''Name'')) \<noteq> [])"

definition clean_row :: "string option \<Rightarrow> raw_row \<Rightarrow> cleaned" where
  "clean_row yr row =
     (let hasClientAddress =
            (truthy (row ''Address'') \<and> trim (the (row ''Address'')) \<noteq> [] \<and>
             the (row ''Address'') \<noteq> ''No address in contract'');
          hasPropertyAddress =
            (truthy (row ''Property Purchased'') \<and> trim (the (row ''Property Purchased'')) \<noteq> [])
      in \<lparr>name = trimmed_or row ''Name'' ''Unknown'',
          clientAddress = (if hasClientAddress then cleanAddress (the (row ''Address'')) else []),
          propertyAddress =
            (if hasPropertyAddress then cleanAddress (the (row ''Property Purchased'')) else []),
          serviceType = trimmed_or row ''Type of Service'' ''Unknown'',
          dateSigned = trimmed_or row ''Date Signed'' [],
          datePurchase = trimmed_or row ''Date of Purchase'' [],
          email = trimmed_or row ''Email'' [],
          notesText = trimmed_or row ''Notes'' [],
          clientState = (if hasClientAddress then extractState (the (row ''Address'')) else Unknown),
          propertyState =
            (if hasPropertyAddress then extractState (the (row ''Property Purchased'')) else Unknown),
          hasClientLocation = hasClientAddress,
          hasPropertyLocation = hasPropertyAddress,
          mapDisplayType = determineMapDisplayType hasClientAddress hasPropertyAddress,
          year = yr\<rparr>)"

definition processData ::
  "env \<Rightarrow> raw_row list \<Rightarrow> string option \<Rightarrow> loader \<Rightarrow> geocoded list \<times> loader" where
  "processData e rawData yr st =
     addGeocoding e (map (clean_row yr) (filter has_name rawData)) st"

section \<open>Loading one year and all years\<close>

record all_data =
  combined :: "geocoded list"
  byYear :: "string \<rightharpoonup> geocoded list"

datatype loaded = Records "geocoded list" | AllYears all_data

text \<open>
  \<^verbatim>\<open>loadAllYearsData\<close> starts the four per-year loads at once and continues each
  one when its \<^verbatim>\<open>await this.loadYearData(year)\<close> settles. How the loads interleave
  is the scheduler's choice; the model takes its outcome as given: \<open>settles\<close> is
  what the awaited load of a year settles with (\<open>Inl\<close> when it rejects),
  \<open>settle_time\<close> is when it does (loads that settle together continue in the order
  in which they were started), and \<open>loader_after\<close> is the loader state that the four
  loads leave behind. Every statement about \<^verbatim>\<open>loadAllYearsData\<close> below holds for all
  values of the three.
\<close>

record async_run =
  settles :: "string \<Rightarrow> error + geocoded list"
  settle_time :: "string \<Rightarrow> nat"
  loader_after :: loader

definition years :: "string list" where
  "years = [''2022'', ''2023'', ''2024'', ''2025'']"

text \<open>
  The body of the callback given to \<^verbatim>\<open>years.map\<close>, from the point where the awaited
  load has settled. It runs without interruption. The object it returns is only
  logged and is left out.
\<close>

definition year_callback :: "async_run \<Rightarrow> string \<Rightarrow> all_data \<Rightarrow> all_data" where
  "year_callback run yr allData =
     (case settles run yr of
        Inr yearData \<Rightarrow>
          allData\<lparr>byYear := (byYear allData)(yr \<mapsto> yearData),
                  combined := combined allData @ map (\<lambda>record. record\<lparr>year := Some yr\<rparr>) yearData\<rparr>
      | Inl err \<Rightarrow> allData\<lparr>byYear := (byYear allData)(yr \<mapsto> [])\<rparr>)"

definition completion_order :: "async_run \<Rightarrow> string list" where
  "completion_order run = sort_key (settle_time run) years"

definition loadAllYearsData :: "async_run \<Rightarrow> all_data" where
  "loadAllYearsData run =
     foldl (\<lambda>allData yr. year_callback run yr allData)
       \<lparr>combined = [], byYear = Map.empty\<rparr> (completion_order run)"

definition loadYearData ::
  "env \<Rightarrow> async_run \<Rightarrow> string \<Rightarrow> loader \<Rightarrow> (error + loaded) \<times> loader" where
  "loadYearData e run yr st =
     (if yr = ''all'' then (Inr (AllYears (loadAllYearsData run)), loader_after run)
      else case cache st yr of
        Some hit \<Rightarrow> (Inr (Records hit), st)
      | None \<Rightarrow>
          (case fetch e yr of
             Rejects reason \<Rightarrow> (Inl (NetworkError reason), st)
           | Response ok statusText body \<Rightarrow>
               if \<not> ok then (Inl (LoadFailed yr statusText), st)
               else
                 (case body of
                    Inl err \<Rightarrow> (Inl err, st)
                  | Inr csvText \<Rightarrow>
                      (case papa e csvText of
                         Inl err \<Rightarrow> (Inl err, st)
                       | Inr parsed \<Rightarrow>
                           let (processed, st1) = processData e parsed (Some yr) st
                           in (Inr (Records processed),
                               st1\<lparr>cache := (cache st1)(yr \<mapsto> processed)\<rparr>)))))"

section \<open>Numbers of the host language\<close>

text \<open>
  \<^verbatim>\<open>generateInsights\<close> divides two counts, multiplies by 100, formats with
  \<^verbatim>\<open>toFixed(1)\<close> and compares the text with a number. The numbers are IEEE 754
  binary64. A finite non-negative one is written \<open>Finite m ex\<close> for \<open>m * 2 ^ ex\<close>;
  the counts are array lengths, far from overflow and underflow, so the exponent
  range is not modelled and rounding is to 53 significant bits, ties to even.
\<close>

datatype js_number = Finite nat int | PosInfinity | NaN

fun bits :: "nat \<Rightarrow> nat" where
  "bits n = (if n = 0 then 0 else Suc (bits (n div 2)))"

declare bits.simps [simp del]

text \<open>Nearest integer to \<open>n / d\<close>, ties to even.\<close>

definition round_half_even :: "nat \<Rightarrow> nat \<Rightarrow> nat" where
  "round_half_even n d =
     (let q = n div d; r = n mod d
      in if 2 * r < d then q else if d < 2 * r then q + 1 else if even q then q else q + 1)"

text \<open>
  The binary64 number nearest to \<open>n / d\<close> for positive \<open>n\<close> and \<open>d\<close>: with
  \<open>2 ^ e \<le> n / d < 2 ^ (e + 1)\<close> the quotient is scaled by \<open>2 ^ (52 - e)\<close> into
  \<open>[2 ^ 52, 2 ^ 53)\<close> and rounded there.
\<close>

definition round_ratio :: "nat \<Rightarrow> nat \<Rightarrow> js_number" where
  "round_ratio n d =
     (let k = int (bits n) - int (bits d);
          e = (if (if 0 \<le> k then d * 2 ^ nat k \<le> n else d \<le> n * 2 ^ nat (- k)) then k else k - 1);
          s = 52 - e
      in if 0 \<le> s then Finite (round_half_even (n * 2 ^ nat s) d) (- s)
         else Finite (round_half_even n (d * 2 ^ nat (- s))) (- s))"

text \<open>\<^verbatim>\<open>a / b\<close> for two counts.\<close>

definition js_div :: "nat \<Rightarrow> nat \<Rightarrow> js_number" where
  "js_div a b =
     (if b = 0 then (if a = 0 then NaN else PosInfinity)
      else if a = 0 then Finite 0 0
      else round_ratio a b)"

text \<open>\<^verbatim>\<open>x * c\<close> for a count \<open>c\<close> (here 100).\<close>

definition js_times :: "js_number \<Rightarrow> nat \<Rightarrow> js_number" where
  "js_times x c =
     (case x of
        NaN \<Rightarrow> NaN
      | PosInfinity \<Rightarrow> (if c = 0 then NaN else PosInfinity)
      | Finite m ex \<Rightarrow>
          if m * c = 0 then Finite 0 0
          else (case round_ratio (m * c) 1 of
                  Finite m' ex' \<Rightarrow> Finite m' (ex' + ex)
                | other \<Rightarrow> other))"

text \<open>
  The text that \<^verbatim>\<open>x.toFixed(1)\<close> returns, as the number it spells: \<open>Tenths n\<close> is
  the decimal with one fraction digit whose value is \<open>n / 10\<close>, where \<open>n / 10\<close> is as
  close to \<open>x\<close> as possible and the larger \<open>n\<close> is taken when two are equally close.
\<close>

datatype fixed1 = Tenths nat | NaN_text | Infinity_text

definition toFixed1 :: "js_number \<Rightarrow> fixed1" where
  "toFixed1 x =
     (case x of
        NaN \<Rightarrow> NaN_text
      | PosInfinity \<Rightarrow> Infinity_text
      | Finite m ex \<Rightarrow>
          if 0 \<le> ex then Tenths (10 * m * 2 ^ nat ex)
          else Tenths ((20 * m + 2 ^ nat (- ex)) div (2 * 2 ^ nat (- ex))))"

text \<open>\<^verbatim>\<open>text > c\<close>: the text is read back as a number; \<^verbatim>\<open>NaN\<close> compares false.\<close>

definition fixed_gt :: "fixed1 \<Rightarrow> nat \<Rightarrow> bool" where
  "fixed_gt t c = (case t of Tenths n \<Rightarrow> 10 * c < n | NaN_text \<Rightarrow> False | Infinity_text \<Rightarrow> True)"

section \<open>Analytics\<close>

record stats =
  clients :: nat
  properties :: nat

datatype figure = Rate fixed1 | Count nat

text \<open>
  An insight: its \<^verbatim>\<open>type\<close> and \<^verbatim>\<open>title\<close>, and the figures that its message cites
  (the message is fixed text around them).
\<close>

record insight =
  itype :: string
  title :: string
  figures :: "figure list"

text \<open>
  \<^verbatim>\<open>regionStats\<close> is an object whose keys are region names; \<^verbatim>\<open>Object.entries\<close>
  lists them in the order in which they were first assigned, so it is an association
  list in that order. \<^verbatim>\<open>serviceTypes\<close> is only ever read by key.
\<close>

record analytics =
  totalClients :: nat
  totalProperties :: nat
  interstateSales :: nat
  serviceTypes :: "string \<rightharpoonup> nat"
  regionStats :: "(region \<times> stats) list"
  insights :: "insight list"
  topRegion :: string

definition region_name :: "region \<Rightarrow> string" where
  "region_name r =
     (case r of NSW \<Rightarrow> ''NSW'' | QLD \<Rightarrow> ''QLD'' | VIC \<Rightarrow> ''VIC'' | SA \<Rightarrow> ''SA'' | WA \<Rightarrow> ''WA''
      | TAS \<Rightarrow> ''TAS'' | NT \<Rightarrow> ''NT'' | ACT \<Rightarrow> ''ACT'' | Singapore \<Rightarrow> ''Singapore''
      | Dubai \<Rightarrow> ''Dubai'' | Unknown \<Rightarrow> ''Unknown'')"

text \<open>\<^verbatim>\<open>if (!regionStats[k]) regionStats[k] = { clients: 0, properties: 0 }\<close>\<close>

definition ensure_region :: "region \<Rightarrow> (region \<times> stats) list \<Rightarrow> (region \<times> stats) list" where
  "ensure_region k rs =
     (case map_of rs k of
        None \<Rightarrow> AList.update k \<lparr>clients = 0, properties = 0\<rparr> rs
      | Some s \<Rightarrow> rs)"

text \<open>\<^verbatim>\<open>regionStats[k].clients++\<close> and \<^verbatim>\<open>regionStats[k].properties++\<close>\<close>

definition count_client :: "region \<Rightarrow> (region \<times> stats) list \<Rightarrow> (region \<times> stats) list" where
  "count_client k rs = map (\<lambda>(k', s). if k' = k then (k', s\<lparr>clients := clients s + 1\<rparr>) else (k', s)) rs"

definition count_property :: "region \<Rightarrow> (region \<times> stats) list \<Rightarrow> (region \<times> stats) list" where
  "count_property k rs =
     map (\<lambda>(k', s). if k' = k then (k', s\<lparr>properties := properties s + 1\<rparr>) else (k', s)) rs"

definition region_step :: "(region \<times> stats) list \<Rightarrow> geocoded \<Rightarrow> (region \<times> stats) list" where
  "region_step rs row =
     (let rs1 = count_client (clientState row) (ensure_region (clientState row) rs)
      in if propertyState row \<noteq> Unknown
         then count_property (propertyState row) (ensure_region (propertyState row) rs1)
         else rs1)"

definition service_step :: "(string \<rightharpoonup> nat) \<Rightarrow> geocoded \<Rightarrow> (string \<rightharpoonup> nat)" where
  "service_step m row =
     m(serviceType row \<mapsto> (case m (serviceType row) of None \<Rightarrow> 0 | Some n \<Rightarrow> n) + 1)"

definition total :: "region \<times> stats \<Rightarrow> nat" where
  "total entry = clients (snd entry) + properties (snd entry)"

text \<open>
  \<^verbatim>\<open>Object.entries(regionStats).sort(([,a], [,b]) => (b.clients + b.properties) -
  (a.clients + a.properties))[0]\<close>: the sort is stable and the comparator orders by
  falling total, which is a stable sort on the negated total.
\<close>

definition find_topRegion :: "(region \<times> stats) list \<Rightarrow> string" where
  "find_topRegion rs =
     (case sort_key (\<lambda>entry. - int (total entry)) rs of
        [] \<Rightarrow> ''N/A''
      | first # rest \<Rightarrow> region_name (fst first))"

definition interstate_insight :: "nat \<Rightarrow> nat \<Rightarrow> insight list" where
  "interstate_insight sales props =
     (let interstateRate = toFixed1 (js_times (js_div sales props) 100)
      in if fixed_gt interstateRate 30
         then [\<lparr>itype = ''info'', title = ''Strong Interstate Investment'',
                figures = [Rate interstateRate]\<rparr>]
         else [])"

definition flow_insight :: "(region \<times> stats) list \<Rightarrow> insight list" where
  "flow_insight rs =
     (let nswClients = (case map_of rs NSW of None \<Rightarrow> 0 | Some s \<Rightarrow> clients s);
          qldProperties = (case map_of rs QLD of None \<Rightarrow> 0 | Some s \<Rightarrow> properties s)
      in if 0 < nswClients \<and> 0 < qldProperties
         then [\<lparr>itype = ''positive'', title = ''NSW to QLD Investment Flow'',
                figures = [Count nswClients, Count qldProperties]\<rparr>]
         else [])"

definition investment_insight :: "(string \<rightharpoonup> nat) \<Rightarrow> nat \<Rightarrow> insight list" where
  "investment_insight types n =
     (let investmentCount = (case types ''Investment'' of None \<Rightarrow> 0 | Some c \<Rightarrow> c);
          investmentRate = toFixed1 (js_times (js_div investmentCount n) 100)
      in if fixed_gt investmentRate 70
         then [\<lparr>itype = ''positive'', title = ''Investment-Focused Client Base'',
                figures = [Rate investmentRate]\<rparr>]
         else [])"

definition international_insight :: "geocoded list \<Rightarrow> insight list" where
  "international_insight data =
     (let internationalClients =
            length (filter (\<lambda>d. clientState d = Singapore \<or> clientState d = Dubai) data)
      in if 0 < internationalClients
         then [\<lparr>itype = ''info'', title = ''International Client Interest'',
                figures = [Count internationalClients]\<rparr>]
         else [])"

definition generateInsights :: "geocoded list \<Rightarrow> analytics \<Rightarrow> insight list" where
  "generateInsights data a =
     interstate_insight (interstateSales a) (totalProperties a) @
     flow_insight (regionStats a) @
     investment_insight (serviceTypes a) (totalClients a) @
     international_insight data"

definition generateAnalytics :: "geocoded list \<Rightarrow> analytics" where
  "generateAnalytics data =
     (let a0 = \<lparr>totalClients = length data,
                totalProperties = length (filter (\<lambda>d. propertyAddress d \<noteq> []) data),
                interstateSales = length (filter isInterstate data),
                serviceTypes = foldl service_step Map.empty data,
                regionStats = foldl region_step [] data,
                insights = [],
                topRegion = []\<rparr>;
          a1 = a0\<lparr>topRegion := find_topRegion (regionStats a0)\<rparr>
      in a1\<lparr>insights := generateInsights data a1\<rparr>)"

section \<open>Notions used in the statements\<close>

subsection \<open>Multi-year loads\<close>

text \<open>
  The records that a year's load delivered (none when it failed), whether it
  succeeded, and the copies of its records with the year of origin written in.
\<close>

definition year_records :: "async_run \<Rightarrow> string \<Rightarrow> geocoded list" where
  "year_records run yr = (case settles run yr of Inr recs \<Rightarrow> recs | Inl err \<Rightarrow> [])"



subsection \<open>The year cache\<close>


subsection \<open>Region classification as the specification words it\<close>

text \<open>
  Two characters are the same letter when they are equal or one is the other's
  upper-case form. A token occurs in an address, ignoring case, when some
  contiguous part of the address matches it letter by letter. \<open>classifyRegion\<close>
  follows the words of the specification: the first region of the fixed enumeration
  whose abbreviation occurs anywhere, then Singapore, then Dubai, else Unknown.
\<close>

definition same_letter :: "char \<Rightarrow> char \<Rightarrow> bool" where
  "same_letter c d \<longleftrightarrow>
     c = d \<or> (c, d) \<in> set (zip lower_letters upper_letters) \<or>
     (d, c) \<in> set (zip lower_letters upper_letters)"

definition occurs_ignoring_case :: "string \<Rightarrow> string \<Rightarrow> bool" where
  "occurs_ignoring_case token address \<longleftrightarrow>
     (\<exists>before mid after. address = before @ mid @ after \<and> list_all2 same_letter mid token)"

definition region_order :: "region list" where
  "region_order = [NSW, QLD, VIC, SA, WA, TAS, NT, ACT]"


subsection \<open>Region statistics\<close>

text \<open>
  The regions that the records mention, in record order (the client's region of a
  record before its property's), and a list cut down to its first occurrences.
\<close>

definition region_mentions :: "geocoded list \<Rightarrow> region list" where
  "region_mentions data =
     concat (map (\<lambda>row. clientState row #
                          (if propertyState row \<noteq> Unknown then [propertyState row] else [])) data)"

definition first_seen :: "'a list \<Rightarrow> 'a list" where
  "first_seen xs = rev (remdups (rev xs))"

definition add_key :: "'a list \<Rightarrow> 'a \<Rightarrow> 'a list" where
  "add_key ks k = (if k \<in> set ks then ks else ks @ [k])"

subsection \<open>The interstate rate\<close>

text \<open>
  The rational number that a finite binary64 number is, rounding to one decimal
  (the nearest tenth, the larger of two equally near ones), and whether a list of
  insights holds the interstate insight.
\<close>

definition number_value :: "js_number \<Rightarrow> rat" where
  "number_value x = (case x of Finite m ex \<Rightarrow> of_nat m * 2 powi ex | PosInfinity \<Rightarrow> 0 | NaN \<Rightarrow> 0)"

definition round1 :: "rat \<Rightarrow> rat" where
  "round1 x = of_int \<lfloor>10 * x + 1 / 2\<rfloor> / 10"

definition interstate_emitted :: "insight list \<Rightarrow> bool" where
  "interstate_emitted found \<longleftrightarrow> ''Strong Interstate Investment'' \<in> set (map title found)"

subsection \<open>What cleaning keeps\<close>

text \<open>
  A character is solid when it is neither white space nor a comma; cleaning an
  address removes or inserts no solid character. Letters are solid.
\<close>

definition solid :: "char \<Rightarrow> bool" where
  "solid c \<longleftrightarrow> \<not> isSpace c \<and> c \<noteq> CHR '',''"

definition letter :: "char \<Rightarrow> bool" where
  "letter c \<longleftrightarrow> c \<in> set lower_letters \<union> set upper_letters"

subsection \<open>Sample inputs\<close>

definition empty_storage :: local_storage where
  "empty_storage = \<lparr>item = None, getItem_throws = False, setItem_throws = False\<rparr>"

definition fresh_loader :: loader where
  "fresh_loader = new_DataLoader empty_storage"






definition offline :: "string \<Rightarrow> fetch_outcome" where
  "offline yr = Rejects ''Failed to fetch''"

definition no_result_env :: env where
  "no_result_env =
     \<lparr>google = True, geocode = (\<lambda>address. Callback [] ''ZERO_RESULTS''),
      fetch = offline, papa = (\<lambda>csvText. Inr [])\<rparr>"


definition comma_row :: raw_row where
  "comma_row = [''Name'' \<mapsto> ''Ann'', ''Address'' \<mapsto> '','']"

definition two_rows :: "raw_row list" where
  "two_rows =
     [comma_row,
      [''Name'' \<mapsto> ''Bob'', ''Address'' \<mapsto> ''1 Main St, Sydney NSW 2000'',
       ''Property Purchased'' \<mapsto> ''2 Hill Rd, Brisbane QLD 4000'']]"


text \<open>A record of a client from one region who bought in another.\<close>

definition investor :: "string \<Rightarrow> region \<Rightarrow> region \<Rightarrow> geocoded" where
  "investor nm home bought =
     \<lparr>name = nm, clientAddress = ''1 Home St'', propertyAddress = ''2 Yield Rd'',
      serviceType = ''Investment'', dateSigned = [], datePurchase = [], email = [], notesText = [],
      clientState = home, propertyState = bought,
      hasClientLocation = True, hasPropertyLocation = True, mapDisplayType = Both,
      year = Some ''2024'', clientCoords = map_of fallbackCoords home,
      propertyCoords = map_of fallbackCoords bought,
      isInterstate = (home \<noteq> Unknown \<and> bought \<noteq> Unknown \<and> home \<noteq> bought)\<rparr>"

section \<open>Multi-year loads\<close>


lemma year_callback_byYear:
  "byYear (year_callback run yr d) = (byYear d)(yr \<mapsto> year_records run yr)"
  by (simp add: year_callback_def year_records_def split: sum.split)


lemma callbacks_byYear:
  "byYear (foldl (\<lambda>allData yr. year_callback run yr allData) d ys) z =
     (if z \<in> set ys then Some (year_records run z) else byYear d z)"
  by (induction ys arbitrary: d) (auto simp add: year_callback_byYear)

lemma set_completion_order: "set (completion_order run) = set years"
  by (simp add: completion_order_def)



lemma byYear_closed_form:
  "byYear (loadAllYearsData run) z = (if z \<in> set years then Some (year_records run z) else None)"
  by (simp add: loadAllYearsData_def callbacks_byYear set_completion_order)




text \<open>
  C10. A multi-year load attempts exactly the years 2022, 2023, 2024 and 2025: the
  keys of \<open>byYear\<close> are these four, whatever the loads do and in whatever order
  they settle. The function takes no list of years.
\<close>

theorem multi_year_keys:
  "dom (byYear (loadAllYearsData run)) = {''2022'', ''2023'', ''2024'', ''2025''}"
proof -
  have "dom (byYear (loadAllYearsData run)) = set years"
    by (auto simp add: byYear_closed_form dom_def)
  then show ?thesis by (simp add: years_def)
qed






section \<open>Evaluation of the sample inputs\<close>

lemmas text_eval = trim_def isSpace_def toUpperCase_def toLowerCase_def upperChar_def lowerChar_def
  lower_letters_def upper_letters_def cleanAddress_def extractState_def stateMap_def

lemmas row_eval = processData_def has_name_def truthy_def clean_row_def trimmed_or_def
  determineMapDisplayType_def geocode_row_def geocodeAddress_def or_fallback_def fallbackCoords_def
  geocodeCache_set_def saveGeocodeCache_def cleaned.extend_def Let_def split_def

lemmas start_eval = fresh_loader_def new_DataLoader_def loadGeocodeCache_def empty_storage_def

lemma fresh_cache_empty: "geocodeCache fresh_loader k = None"
  by (simp add: fresh_loader_def new_DataLoader_def loadGeocodeCache_def empty_storage_def)

section \<open>The geocoder and its cache\<close>

lemma geocodeAddress_answered:
  assumes "address \<noteq> []" "google e" "geocodeCache st (toLowerCase address) = None"
    and "geocode e address = Callback results status"
  shows "geocodeAddress e address st =
     (let result = (if status = ''OK'' \<and> results \<noteq> [] then Some (hd results) else None)
      in (result, saveGeocodeCache (geocodeCache_set (toLowerCase address) result
            (st\<lparr>geocoder_calls := geocoder_calls st @ [address]\<rparr>))))"
  using assms by (simp add: geocodeAddress_def Let_def)

lemma geocodeAddress_throws:
  assumes "address \<noteq> []" "google e" "geocodeCache st (toLowerCase address) = None"
    and "geocode e address = Throws"
  shows "geocodeAddress e address st = (None, st\<lparr>geocoder_calls := geocoder_calls st @ [address]\<rparr>)"
  using assms by (simp add: geocodeAddress_def Let_def)

lemma geocodeAddress_hit:
  assumes "address \<noteq> []" "google e" "geocodeCache st (toLowerCase address) = Some v"
  shows "geocodeAddress e address st = (v, st)"
  using assms by (simp add: geocodeAddress_def Let_def)

lemma geocodeCache_save [simp]: "geocodeCache (saveGeocodeCache st) = geocodeCache st"
  by (simp add: saveGeocodeCache_def)

lemma geocoder_calls_save [simp]: "geocoder_calls (saveGeocodeCache st) = geocoder_calls st"
  by (simp add: saveGeocodeCache_def)

lemma cache_save [simp]: "cache (saveGeocodeCache st) = cache st"
  by (simp add: saveGeocodeCache_def)

lemma item_save:
  "\<not> setItem_throws (localStorage st) \<Longrightarrow>
     item (localStorage (saveGeocodeCache st)) = Some (Entries (geocodeCache st))"
  by (simp add: saveGeocodeCache_def)

text \<open>
  C2, as amended. For an address that is not cached: when the geocoder answers
  without a usable result (status other than OK, or no results), \<^verbatim>\<open>geocodeAddress\<close>
  returns \<open>None\<close>, stores a null entry under the lower-cased address, persists the
  cache, and a second call for the address returns \<open>None\<close> from the cache and leaves
  the state, the call log included, as it is. Only when the geocoder throws are the
  cache and the storage unchanged and is the geocoder called again by the next call.
  A usable result is returned and stored.
\<close>

theorem geocode_miss_is_cached:
  assumes "address \<noteq> []" and "google e" and "geocodeCache st (toLowerCase address) = None"
  shows
   "(\<forall>results status.
       geocode e address = Callback results status \<and> \<not> (status = ''OK'' \<and> results \<noteq> []) \<longrightarrow>
         fst (geocodeAddress e address st) = None \<and>
         geocodeCache (snd (geocodeAddress e address st)) =
           (geocodeCache st)(toLowerCase address \<mapsto> None) \<and>
         (\<not> setItem_throws (localStorage st) \<longrightarrow>
            item (localStorage (snd (geocodeAddress e address st))) =
              Some (Entries ((geocodeCache st)(toLowerCase address \<mapsto> None)))) \<and>
         geocoder_calls (snd (geocodeAddress e address st)) = geocoder_calls st @ [address] \<and>
         geocodeAddress e address (snd (geocodeAddress e address st)) =
           (None, snd (geocodeAddress e address st))) \<and>
    (geocode e address = Throws \<longrightarrow>
         fst (geocodeAddress e address st) = None \<and>
         geocodeCache (snd (geocodeAddress e address st)) = geocodeCache st \<and>
         localStorage (snd (geocodeAddress e address st)) = localStorage st \<and>
         geocoder_calls (snd (geocodeAddress e address (snd (geocodeAddress e address st)))) =
           geocoder_calls st @ [address, address]) \<and>
    (\<forall>results.
       geocode e address = Callback results ''OK'' \<and> results \<noteq> [] \<longrightarrow>
         fst (geocodeAddress e address st) = Some (hd results) \<and>
         geocodeCache (snd (geocodeAddress e address st)) (toLowerCase address) =
           Some (Some (hd results)))"
proof (intro conjI allI impI)
  fix results status
  assume a: "geocode e address = Callback results status \<and> \<not> (status = ''OK'' \<and> results \<noteq> [])"
  let ?st1 = "saveGeocodeCache (geocodeCache_set (toLowerCase address) None
            (st\<lparr>geocoder_calls := geocoder_calls st @ [address]\<rparr>))"
  from a assms have run1: "geocodeAddress e address st = (None, ?st1)"
    by (auto simp add: geocodeAddress_answered Let_def)
  show "fst (geocodeAddress e address st) = None" by (simp add: run1)
  show "geocodeCache (snd (geocodeAddress e address st)) = (geocodeCache st)(toLowerCase address \<mapsto> None)"
    by (simp add: run1 geocodeCache_set_def)
  show "geocoder_calls (snd (geocodeAddress e address st)) = geocoder_calls st @ [address]"
    by (simp add: run1 geocodeCache_set_def)
  have "geocodeCache ?st1 (toLowerCase address) = Some None"
    by (simp add: geocodeCache_set_def)
  with assms show "geocodeAddress e address (snd (geocodeAddress e address st)) =
           (None, snd (geocodeAddress e address st))"
    by (simp add: run1 geocodeAddress_hit)
  {
    assume "\<not> setItem_throws (localStorage st)"
    then show "item (localStorage (snd (geocodeAddress e address st))) =
              Some (Entries ((geocodeCache st)(toLowerCase address \<mapsto> None)))"
      by (simp add: run1 item_save geocodeCache_set_def)
  }
next
  assume t: "geocode e address = Throws"
  let ?st1 = "st\<lparr>geocoder_calls := geocoder_calls st @ [address]\<rparr>"
  from t assms have run1: "geocodeAddress e address st = (None, ?st1)"
    by (simp add: geocodeAddress_throws)
  show "fst (geocodeAddress e address st) = None" by (simp add: run1)
  show "geocodeCache (snd (geocodeAddress e address st)) = geocodeCache st" by (simp add: run1)
  show "localStorage (snd (geocodeAddress e address st)) = localStorage st" by (simp add: run1)
  from t assms have "geocodeAddress e address ?st1 =
      (None, ?st1\<lparr>geocoder_calls := geocoder_calls ?st1 @ [address]\<rparr>)"
    by (intro geocodeAddress_throws) simp_all
  then show "geocoder_calls (snd (geocodeAddress e address (snd (geocodeAddress e address st)))) =
           geocoder_calls st @ [address, address]"
    by (simp add: run1)
next
  fix results
  assume a: "geocode e address = Callback results ''OK'' \<and> results \<noteq> []"
  with assms have run1: "geocodeAddress e address st =
     (Some (hd results), saveGeocodeCache (geocodeCache_set (toLowerCase address) (Some (hd results))
            (st\<lparr>geocoder_calls := geocoder_calls st @ [address]\<rparr>)))"
    by (simp add: geocodeAddress_answered Let_def)
  show "fst (geocodeAddress e address st) = Some (hd results)" by (simp add: run1)
  show "geocodeCache (snd (geocodeAddress e address st)) (toLowerCase address) = Some (Some (hd results))"
    by (simp add: run1 geocodeCache_set_def)
qed

theorem geocode_miss_is_cached_witness:
  "''1 Main St'' \<noteq> [] \<and> google no_result_env \<and>
   geocodeCache fresh_loader (toLowerCase ''1 Main St'') = None \<and>
   geocode no_result_env ''1 Main St'' = Callback [] ''ZERO_RESULTS'' \<and>
   fst (geocodeAddress no_result_env ''1 Main St'' fresh_loader) = None \<and>
   geocodeCache (snd (geocodeAddress no_result_env ''1 Main St'' fresh_loader)) =
     (geocodeCache fresh_loader)(toLowerCase ''1 Main St'' \<mapsto> None)"
proof -
  have h1: "''1 Main St'' \<noteq> []" by simp
  have h2: "google no_result_env" by (simp add: no_result_env_def)
  have h3: "geocodeCache fresh_loader (toLowerCase ''1 Main St'') = None"
    by (rule fresh_cache_empty)
  have h4: "geocode no_result_env ''1 Main St'' = Callback [] ''ZERO_RESULTS''"
    by (simp add: no_result_env_def)
  from geocode_miss_is_cached [OF h1 h2 h3] h4
  have "fst (geocodeAddress no_result_env ''1 Main St'' fresh_loader) = None \<and>
        geocodeCache (snd (geocodeAddress no_result_env ''1 Main St'' fresh_loader)) =
          (geocodeCache fresh_loader)(toLowerCase ''1 Main St'' \<mapsto> None)"
    by blast
  with h1 h2 h3 h4 show ?thesis by blast
qed

text \<open>
  The claim as written fails for a geocoder that reports no result: the cache and
  the storage gain an entry, and of two calls only the first reaches the geocoder.
\<close>

theorem geocode_miss_counterexample:
  "fst (geocodeAddress no_result_env ''1 Main St'' fresh_loader) = None \<and>
   geocodeCache fresh_loader ''1 main st'' = None \<and>
   geocodeCache (snd (geocodeAddress no_result_env ''1 Main St'' fresh_loader)) ''1 main st'' = Some None \<and>
   item (localStorage fresh_loader) = None \<and>
   item (localStorage (snd (geocodeAddress no_result_env ''1 Main St'' fresh_loader))) \<noteq> None \<and>
   geocoder_calls (snd (geocodeAddress no_result_env ''1 Main St''
      (snd (geocodeAddress no_result_env ''1 Main St'' fresh_loader)))) = [''1 Main St'']"
  by (simp add: geocodeAddress_def no_result_env_def fresh_loader_def new_DataLoader_def
      loadGeocodeCache_def empty_storage_def toLowerCase_def lowerChar_def upper_letters_def
      lower_letters_def geocodeCache_set_def saveGeocodeCache_def Let_def)




section \<open>Processed rows\<close>

lemma or_fallback_found: "\<exists>c. or_fallback found state = Some c"
  by (cases found; cases state) (simp_all add: or_fallback_def fallbackCoords_def)

lemma geocode_row_keeps:
  "hasClientLocation (fst (geocode_row e row st)) = hasClientLocation row"
  "hasPropertyLocation (fst (geocode_row e row st)) = hasPropertyLocation row"
  "clientAddress (fst (geocode_row e row st)) = clientAddress row"
  "propertyAddress (fst (geocode_row e row st)) = propertyAddress row"
  "clientState (fst (geocode_row e row st)) = clientState row"
  "propertyState (fst (geocode_row e row st)) = propertyState row"
  "year (fst (geocode_row e row st)) = year row"
  by (simp_all add: geocode_row_def split_def Let_def cleaned.extend_def)

lemma geocode_row_interstate:
  "isInterstate (fst (geocode_row e row st)) \<longleftrightarrow>
     clientState row \<noteq> Unknown \<and> propertyState row \<noteq> Unknown \<and> clientState row \<noteq> propertyState row"
  by (simp add: geocode_row_def split_def Let_def cleaned.extend_def)

lemma geocode_row_clientCoords:
  "clientCoords (fst (geocode_row e row st)) \<noteq> None \<longleftrightarrow>
     hasClientLocation row \<and> clientAddress row \<noteq> []"
  by (simp add: geocode_row_def split_def Let_def cleaned.extend_def or_fallback_found)

lemma geocode_row_propertyCoords:
  "propertyCoords (fst (geocode_row e row st)) \<noteq> None \<longleftrightarrow>
     hasPropertyLocation row \<and> propertyAddress row \<noteq> []"
  by (simp add: geocode_row_def split_def Let_def cleaned.extend_def or_fallback_found)

lemma addGeocoding_rows:
  "g \<in> set (fst (addGeocoding e rows st)) \<Longrightarrow>
     \<exists>row \<in> set rows. \<exists>st'. g = fst (geocode_row e row st')"
proof (induction rows arbitrary: st)
  case Nil
  then show ?case by simp
next
  case (Cons row rows)
  then show ?case by (auto simp add: split_def Let_def)
qed

lemma processData_rows:
  "g \<in> set (fst (processData e rawData yr st)) \<Longrightarrow>
     \<exists>raw \<in> set rawData. \<exists>st'. has_name raw \<and> g = fst (geocode_row e (clean_row yr raw) st')"
proof -
  assume "g \<in> set (fst (processData e rawData yr st))"
  then obtain row st' where "row \<in> set (map (clean_row yr) (filter has_name rawData))"
    and g: "g = fst (geocode_row e row st')"
    unfolding processData_def by (blast dest: addGeocoding_rows)
  then obtain raw where "raw \<in> set rawData" "has_name raw" "row = clean_row yr raw"
    by auto
  with g show ?thesis by blast
qed

text \<open>
  C1, as amended. A processed record has a client coordinate exactly when it is
  flagged as having a client address and its cleaned client address is not empty, and
  likewise for the property: \<^verbatim>\<open>addGeocoding\<close> tests the flag and the cleaned address,
  and then a resolved, cached or fallback coordinate is always there.
\<close>

theorem located_rows_get_coordinates:
  "\<forall>r \<in> set (fst (processData e rawData yr st)).
     (clientCoords r \<noteq> None \<longleftrightarrow> hasClientLocation r \<and> clientAddress r \<noteq> []) \<and>
     (propertyCoords r \<noteq> None \<longleftrightarrow> hasPropertyLocation r \<and> propertyAddress r \<noteq> [])"
proof
  fix r assume "r \<in> set (fst (processData e rawData yr st))"
  then obtain raw st' where r: "r = fst (geocode_row e (clean_row yr raw) st')"
    by (blast dest: processData_rows)
  show "(clientCoords r \<noteq> None \<longleftrightarrow> hasClientLocation r \<and> clientAddress r \<noteq> []) \<and>
     (propertyCoords r \<noteq> None \<longleftrightarrow> hasPropertyLocation r \<and> propertyAddress r \<noteq> [])"
    unfolding r by (simp only: geocode_row_clientCoords geocode_row_propertyCoords geocode_row_keeps)
qed

theorem located_rows_get_coordinates_witness:
  "last (fst (processData no_result_env two_rows None fresh_loader))
     \<in> set (fst (processData no_result_env two_rows None fresh_loader)) \<and>
   hasClientLocation (last (fst (processData no_result_env two_rows None fresh_loader))) \<and>
   clientAddress (last (fst (processData no_result_env two_rows None fresh_loader))) \<noteq> [] \<and>
   clientCoords (last (fst (processData no_result_env two_rows None fresh_loader))) \<noteq> None"
proof -
  let ?recs = "fst (processData no_result_env two_rows None fresh_loader)"
  let ?f = "\<lambda>r. (hasClientLocation r, clientAddress r)"
  have ev: "map ?f ?recs = [(True, []), (True, ''1 Main St, Sydney NSW 2000'')]"
    by (simp add: two_rows_def comma_row_def no_result_env_def text_eval row_eval start_eval)
  then have ne: "?recs \<noteq> []" by auto
  then have mem: "last ?recs \<in> set ?recs" by simp
  from ne have "?f (last ?recs) = last (map ?f ?recs)" by (simp add: last_map)
  with ev have flagged: "hasClientLocation (last ?recs)" and addr: "clientAddress (last ?recs) \<noteq> []"
    by simp_all
  from located_rows_get_coordinates [of no_result_env two_rows None fresh_loader] mem flagged addr
  have "clientCoords (last ?recs) \<noteq> None" by blast
  with mem flagged addr show ?thesis by blast
qed

text \<open>
  The claim as written fails for the address \<open>'',''\<close>: it is not blank, so the row is
  flagged, but it cleans to the empty string, and the record gets no coordinate.
\<close>

theorem flagged_without_coordinates_counterexample:
  "map (\<lambda>r. (hasClientLocation r, clientAddress r, clientCoords r))
     (fst (processData no_result_env [comma_row] None fresh_loader)) = [(True, [], None)]"
  by (simp add: comma_row_def no_result_env_def text_eval row_eval start_eval)

section \<open>Single-year loads\<close>


lemma cache_geocodeAddress [simp]: "cache (snd (geocodeAddress e address st)) = cache st"
  by (simp add: geocodeAddress_def Let_def geocodeCache_set_def split: option.split geocode_outcome.split)

lemma cache_geocode_row [simp]: "cache (snd (geocode_row e row st)) = cache st"
  by (simp add: geocode_row_def split_def Let_def)

lemma cache_addGeocoding [simp]: "cache (snd (addGeocoding e rows st)) = cache st"
  by (induction rows arbitrary: st) (simp_all add: split_def Let_def)

lemma cache_processData [simp]: "cache (snd (processData e rawData yr st)) = cache st"
  by (simp add: processData_def)





lemma loadYearData_fetch_fails:
  assumes "yr \<noteq> ''all''" and "cache st yr = None"
    and "fetch e yr = Rejects reason \<or> fetch e yr = Response False statusText body"
  shows "\<exists>err. loadYearData e run yr st = (Inl err, st)"
  using assms by (auto simp add: loadYearData_def)




section \<open>Region classification\<close>

lemma zip_right_unique:
  assumes "distinct us" and "(x, u) \<in> set (zip ls us)" and "(y, u) \<in> set (zip ls us)"
  shows "x = y"
proof -
  from assms(2) obtain i where i: "ls ! i = x" "us ! i = u" "i < length us"
    by (auto simp add: in_set_zip)
  from assms(3) obtain j where j: "ls ! j = y" "us ! j = u" "j < length us"
    by (auto simp add: in_set_zip)
  from assms(1) i j have "i = j" by (metis nth_eq_iff_index_eq)
  with i j show ?thesis by simp
qed

lemma pairing_cases:
  assumes "distinct ls" "distinct us" "set ls \<inter> set us = {}" "length ls = length us"
  shows "(case map_of (zip ls us) c of Some u \<Rightarrow> u | None \<Rightarrow> c) =
         (case map_of (zip ls us) d of Some u \<Rightarrow> u | None \<Rightarrow> d) \<longleftrightarrow>
         c = d \<or> (c, d) \<in> set (zip ls us) \<or> (d, c) \<in> set (zip ls us)"
proof -
  define up where "up x = (case map_of (zip ls us) x of Some u \<Rightarrow> u | None \<Rightarrow> x)" for x
  have dz: "distinct (map fst (zip ls us))" using assms by (simp add: map_fst_zip)
  have some: "map_of (zip ls us) x = Some u \<longleftrightarrow> (x, u) \<in> set (zip ls us)" for x u
    using dz by (simp add: map_of_eq_Some_iff)
  have none: "map_of (zip ls us) x = None \<longleftrightarrow> x \<notin> set ls" for x
    using assms by (metis map_fst_zip map_of_eq_None_iff set_map)
  have func: "(x, u) \<in> set (zip ls us) \<Longrightarrow> up x = u" for x u
    by (simp add: up_def flip: some)
  have kind: "(x \<notin> set ls \<and> up x = x) \<or> (x \<in> set ls \<and> (x, up x) \<in> set (zip ls us))" for x
  proof (cases "map_of (zip ls us) x")
    case None
    moreover from None have "x \<notin> set ls" by (simp add: none)
    ultimately show ?thesis by (simp add: up_def)
  next
    case (Some u)
    then have "(x, u) \<in> set (zip ls us)" by (simp add: some)
    moreover from this have "x \<in> set ls" by (rule set_zip_leftD)
    moreover from Some have "up x = u" by (simp add: up_def)
    ultimately show ?thesis by simp
  qed
  have right: "(x, u) \<in> set (zip ls us) \<Longrightarrow> u \<notin> set ls" for x u
    using assms(3) by (auto dest: set_zip_rightD)
  have "up c = up d \<longleftrightarrow> c = d \<or> (c, d) \<in> set (zip ls us) \<or> (d, c) \<in> set (zip ls us)"
  proof
    assume eq: "up c = up d"
    from kind [of c] kind [of d] show "c = d \<or> (c, d) \<in> set (zip ls us) \<or> (d, c) \<in> set (zip ls us)"
    proof (elim disjE conjE)
      assume "c \<notin> set ls" "up c = c" "d \<notin> set ls" "up d = d"
      with eq show ?thesis by simp
    next
      assume "c \<notin> set ls" "up c = c" "d \<in> set ls" "(d, up d) \<in> set (zip ls us)"
      with eq show ?thesis by simp
    next
      assume "c \<in> set ls" "(c, up c) \<in> set (zip ls us)" "d \<notin> set ls" "up d = d"
      with eq show ?thesis by simp
    next
      assume "c \<in> set ls" "(c, up c) \<in> set (zip ls us)" "d \<in> set ls" "(d, up d) \<in> set (zip ls us)"
      with eq have "c = d" using zip_right_unique [OF assms(2)] by metis
      then show ?thesis by simp
    qed
  next
    assume "c = d \<or> (c, d) \<in> set (zip ls us) \<or> (d, c) \<in> set (zip ls us)"
    then show "up c = up d"
    proof (elim disjE)
      assume "c = d" then show ?thesis by simp
    next
      assume a: "(c, d) \<in> set (zip ls us)"
      then have "up c = d" by (rule func)
      moreover from a have "d \<notin> set ls" by (rule right)
      then have "up d = d" using kind [of d] by blast
      ultimately show ?thesis by simp
    next
      assume a: "(d, c) \<in> set (zip ls us)"
      then have "up d = c" by (rule func)
      moreover from a have "c \<notin> set ls" by (rule right)
      then have "up c = c" using kind [of c] by blast
      ultimately show ?thesis by simp
    qed
  qed
  then show ?thesis by (simp add: up_def)
qed

lemma letters_distinct:
  "distinct lower_letters" "distinct upper_letters"
  "set lower_letters \<inter> set upper_letters = {}" "length lower_letters = length upper_letters"
  by (simp_all add: lower_letters_def upper_letters_def)

lemma same_letter_upper: "same_letter c d \<longleftrightarrow> upperChar c = upperChar d"
  unfolding same_letter_def upperChar_def
  by (rule pairing_cases [OF letters_distinct, symmetric])

lemma same_letter_lower: "same_letter c d \<longleftrightarrow> lowerChar c = lowerChar d"
proof -
  have "lowerChar c = lowerChar d \<longleftrightarrow>
        c = d \<or> (c, d) \<in> set (zip upper_letters lower_letters) \<or>
        (d, c) \<in> set (zip upper_letters lower_letters)"
    unfolding lowerChar_def
    by (rule pairing_cases) (use letters_distinct in \<open>auto\<close>)
  moreover have "(x, y) \<in> set (zip upper_letters lower_letters) \<longleftrightarrow>
        (y, x) \<in> set (zip lower_letters upper_letters)" for x y
    by (metis in_set_zip fst_conv snd_conv letters_distinct(4))
  ultimately show ?thesis by (auto simp add: same_letter_def)
qed

lemma includes_str_sublist: "includes_str s k \<longleftrightarrow> sublist k s"
  by (induction s) (simp_all add: sublist_Cons_right)

lemma includes_str_iff: "includes_str s k \<longleftrightarrow> (\<exists>before after. s = before @ k @ after)"
  by (simp add: includes_str_sublist sublist_def)

lemma includes_str_map:
  "includes_str (map f a) k \<longleftrightarrow> (\<exists>before mid after. a = before @ mid @ after \<and> map f mid = k)"
proof
  assume "includes_str (map f a) k"
  then obtain p q where "map f a = p @ k @ q" by (auto simp add: includes_str_iff)
  then obtain before rest where a: "a = before @ rest" and "map f rest = k @ q"
    by (metis map_eq_append_conv)
  then obtain mid after where "rest = mid @ after" and "map f mid = k"
    by (metis map_eq_append_conv)
  with a show "\<exists>before mid after. a = before @ mid @ after \<and> map f mid = k" by blast
next
  assume "\<exists>before mid after. a = before @ mid @ after \<and> map f mid = k"
  then obtain before mid after where "a = before @ mid @ after" and "map f mid = k" by blast
  then have "map f a = map f before @ k @ map f after" by simp
  then show "includes_str (map f a) k" unfolding includes_str_iff by blast
qed

lemma same_letters_upper: "list_all2 same_letter xs ys \<longleftrightarrow> toUpperCase xs = toUpperCase ys"
proof -
  have "list_all2 same_letter xs ys \<longleftrightarrow> list_all2 (=) (map upperChar xs) (map upperChar ys)"
    by (simp add: list.rel_map same_letter_upper [abs_def])
  then show ?thesis by (simp add: list.rel_eq toUpperCase_def)
qed

lemma same_letters_lower: "list_all2 same_letter xs ys \<longleftrightarrow> toLowerCase xs = toLowerCase ys"
proof -
  have "list_all2 same_letter xs ys \<longleftrightarrow> list_all2 (=) (map lowerChar xs) (map lowerChar ys)"
    by (simp add: list.rel_map same_letter_lower [abs_def])
  then show ?thesis by (simp add: list.rel_eq toLowerCase_def)
qed

lemma includes_upper:
  "toUpperCase k = k \<Longrightarrow> includes_str (toUpperCase a) k \<longleftrightarrow> occurs_ignoring_case k a"
  by (simp add: occurs_ignoring_case_def same_letters_upper)
     (simp add: toUpperCase_def includes_str_map)

lemma includes_lower:
  "toLowerCase k = k \<Longrightarrow> includes_str (toLowerCase a) k \<longleftrightarrow> occurs_ignoring_case k a"
  by (simp add: occurs_ignoring_case_def same_letters_lower)
     (simp add: toLowerCase_def includes_str_map)

lemma case_eval:
  "toUpperCase ''NSW'' = ''NSW''" "toUpperCase ''QLD'' = ''QLD''" "toUpperCase ''VIC'' = ''VIC''"
  "toUpperCase ''SA'' = ''SA''" "toUpperCase ''WA'' = ''WA''" "toUpperCase ''TAS'' = ''TAS''"
  "toUpperCase ''NT'' = ''NT''" "toUpperCase ''ACT'' = ''ACT''"
  "toLowerCase ''singapore'' = ''singapore''" "toLowerCase ''dubai'' = ''dubai''"
  by (simp_all add: toUpperCase_def toLowerCase_def upperChar_def lowerChar_def
      lower_letters_def upper_letters_def)

lemma first_state_find:
  "first_state stateMap address =
     find (\<lambda>r. occurs_ignoring_case (region_name r) address) region_order"
  by (simp add: stateMap_def region_order_def region_name_def includes_upper case_eval)




section \<open>Top region\<close>

lemma sort_key_head:
  assumes "xs \<noteq> []"
  shows "\<exists>before first after.
           xs = before @ first # after \<and> hd (sort_key f xs) = first \<and>
           (\<forall>e \<in> set before. f first < f e) \<and> (\<forall>e \<in> set after. f first \<le> f e)"
  using assms
proof (induction xs)
  case Nil
  then show ?case by simp
next
  case (Cons x xs)
  show ?case
  proof (cases "xs = []")
    case True
    then have "x # xs = [] @ x # [] \<and> hd (sort_key f (x # xs)) = x" by simp
    then show ?thesis by (metis empty_iff empty_set)
  next
    case False
    with Cons.IH obtain before first after where
      split: "xs = before @ first # after" and hd: "hd (sort_key f xs) = first" and
      lt: "\<forall>e \<in> set before. f first < f e" and le: "\<forall>e \<in> set after. f first \<le> f e"
      by blast
    from False have ne: "sort_key f xs \<noteq> []" by (metis length_0_conv length_sort)
    then obtain y ys where sk: "sort_key f xs = y # ys" by (cases "sort_key f xs") auto
    with hd have y: "y = first" by simp
    show ?thesis
    proof (cases "f x \<le> f first")
      case True
      with sk y have "hd (sort_key f (x # xs)) = x" by simp
      moreover have "\<forall>e \<in> set xs. f x \<le> f e"
        using True lt le split by (auto intro: order_trans less_imp_le)
      ultimately have "x # xs = [] @ x # xs \<and> hd (sort_key f (x # xs)) = x \<and>
          (\<forall>e \<in> set []. f x < f e) \<and> (\<forall>e \<in> set xs. f x \<le> f e)" by simp
      then show ?thesis by blast
    next
      case False
      with sk y have "hd (sort_key f (x # xs)) = first" by simp
      moreover from False lt have "\<forall>e \<in> set (x # before). f first < f e" by auto
      moreover from split have "x # xs = (x # before) @ first # after" by simp
      ultimately show ?thesis using le by blast
    qed
  qed
qed

lemma find_topRegion_empty: "find_topRegion [] = ''N/A''"
  by (simp add: find_topRegion_def)

lemma find_topRegion_first_maximum:
  assumes "rs \<noteq> []"
  shows "\<exists>before first after.
           rs = before @ first # after \<and> find_topRegion rs = region_name (fst first) \<and>
           (\<forall>e \<in> set before. total e < total first) \<and> (\<forall>e \<in> set after. total e \<le> total first)"
proof -
  let ?f = "\<lambda>entry. - int (total entry)"
  from sort_key_head [OF assms, of ?f] obtain before first after where
    split: "rs = before @ first # after" and hd: "hd (sort_key ?f rs) = first" and
    lt: "\<forall>e \<in> set before. ?f first < ?f e" and le: "\<forall>e \<in> set after. ?f first \<le> ?f e"
    by blast
  from assms have "sort_key ?f rs \<noteq> []" by (metis length_0_conv length_sort)
  with hd have "find_topRegion rs = region_name (fst first)"
    by (cases "sort_key ?f rs") (simp_all add: find_topRegion_def)
  moreover from lt have "\<forall>e \<in> set before. total e < total first" by simp
  moreover from le have "\<forall>e \<in> set after. total e \<le> total first" by simp
  ultimately show ?thesis using split by blast
qed

lemma keys_ensure_region: "map fst (ensure_region k rs) = add_key (map fst rs) k"
proof (cases "map_of rs k")
  case None
  then have "k \<notin> set (map fst rs)" by (simp add: map_of_eq_None_iff)
  with None show ?thesis by (simp add: ensure_region_def add_key_def update_keys)
next
  case (Some s)
  then have "k \<in> set (map fst rs)" by (metis map_of_eq_None_iff option.distinct(1) set_map)
  with Some show ?thesis by (simp add: ensure_region_def add_key_def)
qed

lemma keys_count_client: "map fst (count_client k rs) = map fst rs"
  by (induction rs) (auto simp add: count_client_def)

lemma keys_count_property: "map fst (count_property k rs) = map fst rs"
  by (induction rs) (auto simp add: count_property_def)

lemma keys_region_step:
  "map fst (region_step rs row) =
     foldl add_key (map fst rs)
       (clientState row # (if propertyState row \<noteq> Unknown then [propertyState row] else []))"
  by (simp add: region_step_def Let_def keys_count_client keys_count_property keys_ensure_region)

lemma keys_foldl_region_step:
  "map fst (foldl region_step rs data) = foldl add_key (map fst rs) (region_mentions data)"
proof (induction data arbitrary: rs)
  case Nil
  then show ?case by (simp add: region_mentions_def)
next
  case (Cons row data)
  have "region_mentions (row # data) =
      (clientState row # (if propertyState row \<noteq> Unknown then [propertyState row] else []))
        @ region_mentions data"
    by (simp add: region_mentions_def)
  then show ?case
    using Cons.IH [of "region_step rs row"] by (simp only: foldl_append foldl_Cons keys_region_step)
qed

lemma first_seen_snoc: "first_seen (xs @ [k]) = add_key (first_seen xs) k"
  by (simp add: first_seen_def add_key_def)

lemma foldl_add_key: "foldl add_key (first_seen xs) ys = first_seen (xs @ ys)"
proof (induction ys arbitrary: xs)
  case Nil
  then show ?case by simp
next
  case (Cons y ys)
  from Cons.IH [of "xs @ [y]"] show ?case by (simp add: first_seen_snoc)
qed

lemma regionStats_generateAnalytics:
  "regionStats (generateAnalytics data) = foldl region_step [] data"
  by (simp add: generateAnalytics_def Let_def)

lemma topRegion_generateAnalytics:
  "topRegion (generateAnalytics data) = find_topRegion (foldl region_step [] data)"
  by (simp add: generateAnalytics_def Let_def)

text \<open>
  C6. \<open>topRegion\<close> is \<open>''N/A''\<close> when \<open>regionStats\<close> is empty. Otherwise it names
  an entry of \<open>regionStats\<close> whose total of clients and properties is larger than
  that of every entry before it and at least that of every entry after it: the
  first entry with the maximal total. The entries of \<open>regionStats\<close> stand in the
  order in which the records first mention their regions.
\<close>

theorem top_region_first_maximum:
  "(regionStats (generateAnalytics data) = [] \<longrightarrow> topRegion (generateAnalytics data) = ''N/A'') \<and>
   (regionStats (generateAnalytics data) \<noteq> [] \<longrightarrow>
      (\<exists>before first after.
         regionStats (generateAnalytics data) = before @ first # after \<and>
         topRegion (generateAnalytics data) = region_name (fst first) \<and>
         (\<forall>e \<in> set before. total e < total first) \<and>
         (\<forall>e \<in> set after. total e \<le> total first))) \<and>
   map fst (regionStats (generateAnalytics data)) = first_seen (region_mentions data)"
proof (intro conjI impI)
  assume "regionStats (generateAnalytics data) = []"
  then show "topRegion (generateAnalytics data) = ''N/A''"
    by (simp add: regionStats_generateAnalytics topRegion_generateAnalytics find_topRegion_empty)
next
  assume "regionStats (generateAnalytics data) \<noteq> []"
  then have "foldl region_step [] data \<noteq> []" by (simp add: regionStats_generateAnalytics)
  from find_topRegion_first_maximum [OF this]
  show "\<exists>before first after.
         regionStats (generateAnalytics data) = before @ first # after \<and>
         topRegion (generateAnalytics data) = region_name (fst first) \<and>
         (\<forall>e \<in> set before. total e < total first) \<and>
         (\<forall>e \<in> set after. total e \<le> total first)"
    by (simp only: regionStats_generateAnalytics topRegion_generateAnalytics)
next
  have "map fst (foldl region_step [] data) = foldl add_key (first_seen []) (region_mentions data)"
    by (simp add: keys_foldl_region_step first_seen_def)
  then show "map fst (regionStats (generateAnalytics data)) = first_seen (region_mentions data)"
    by (simp add: regionStats_generateAnalytics foldl_add_key)
qed

lemmas analytics_eval = generateAnalytics_def region_step_def ensure_region_def count_client_def
  count_property_def find_topRegion_def total_def region_name_def investor_def Let_def

theorem top_region_first_maximum_witness:
  "regionStats (generateAnalytics [investor ''Ann'' QLD NSW]) \<noteq> [] \<and>
   regionStats (generateAnalytics [investor ''Ann'' QLD NSW]) =
     [(QLD, \<lparr>clients = 1, properties = 0\<rparr>), (NSW, \<lparr>clients = 0, properties = 1\<rparr>)] \<and>
   topRegion (generateAnalytics [investor ''Ann'' QLD NSW]) = ''QLD''"
proof -
  let ?a = "generateAnalytics [investor ''Ann'' QLD NSW]"
  let ?q = "(QLD, \<lparr>clients = 1, properties = 0\<rparr>)"
  let ?n = "(NSW, \<lparr>clients = 0, properties = 1\<rparr>)"
  have rs: "regionStats ?a = [?q, ?n]"
    by (simp add: analytics_eval)
  then have ne: "regionStats ?a \<noteq> []" by simp
  with top_region_first_maximum [of "[investor ''Ann'' QLD NSW]"]
  obtain before first after where
    split: "regionStats ?a = before @ first # after" and
    top: "topRegion ?a = region_name (fst first)" and
    lt: "\<forall>e \<in> set before. total e < total first"
    by blast
  from split rs have "before = [] \<and> first = ?q \<or> before = [?q] \<and> first = ?n"
    by (auto simp add: append_eq_Cons_conv Cons_eq_append_conv)
  moreover have "\<not> total ?q < total ?n" by (simp add: total_def)
  ultimately have "first = ?q" using lt by auto
  with top have "topRegion ?a = ''QLD''" by (simp add: region_name_def)
  with rs ne show ?thesis by simp
qed

section \<open>Cleaning keeps what classification finds\<close>

lemma filter_dropWhile:
  "(\<And>x. Q x \<Longrightarrow> \<not> P x) \<Longrightarrow> filter P (dropWhile Q xs) = filter P xs"
  by (induction xs) auto

lemma solid_dropWhile: "filter solid (dropWhile isSpace xs) = filter solid xs"
  by (rule filter_dropWhile) (simp add: solid_def)

lemma solid_trim: "filter solid (trim s) = filter solid s"
  by (simp add: trim_def solid_dropWhile flip: rev_filter)

lemma solid_replace_newlines: "filter solid (replace_newlines s) = filter solid s"
  by (induction s) (simp_all add: solid_def isSpace_def)

lemma solid_collapse_commas: "filter solid (collapse_commas s) = filter solid s"
proof (induction s rule: collapse_commas.induct)
  case 1
  then show ?case by simp
next
  case (2 c cs)
  show ?case
  proof (cases "c = CHR '',''")
    case False
    then have "collapse_commas (c # cs) = c # collapse_commas cs" by simp
    moreover from False have "filter solid (collapse_commas cs) = filter solid cs" by (rule "2.IH"(4))
    ultimately show ?thesis by simp
  next
    case comma: True
    show ?thesis
    proof (cases "dropWhile isSpace cs")
      case Nil
      have "collapse_commas (c # cs) = c # collapse_commas cs" by (simp add: comma Nil)
      moreover from comma Nil have "filter solid (collapse_commas cs) = filter solid cs"
        by (rule "2.IH"(1))
      ultimately show ?thesis by simp
    next
      case (Cons d ds)
      show ?thesis
      proof (cases "d = CHR '',''")
        case False
        have "collapse_commas (c # cs) = c # collapse_commas cs" by (simp add: comma Cons False)
        moreover from comma Cons False have "filter solid (collapse_commas cs) = filter solid cs"
          by (rule "2.IH"(3))
        ultimately show ?thesis by simp
      next
        case True
        have cc: "collapse_commas (c # cs) = CHR '','' # collapse_commas ds"
          by (simp add: comma Cons True)
        from comma Cons True have ih: "filter solid (collapse_commas ds) = filter solid ds"
          by (rule "2.IH"(2))
        have "filter solid cs = filter solid (dropWhile isSpace cs)"
          by (simp add: solid_dropWhile)
        also have "\<dots> = filter solid ds"
          by (simp add: Cons True solid_def)
        finally have "filter solid (c # cs) = filter solid ds"
          by (simp add: comma solid_def)
        moreover have "filter solid (collapse_commas (c # cs)) = filter solid ds"
          unfolding cc by (simp add: ih solid_def)
        ultimately show ?thesis by simp
      qed
    qed
  qed
qed

lemma solid_spaces: "list_all isSpace cs \<Longrightarrow> filter solid cs = []"
  by (induction cs) (simp_all add: solid_def)

lemma solid_strip_trailing_comma: "filter solid (strip_trailing_comma s) = filter solid s"
  by (induction s) (auto simp add: solid_spaces, simp add: solid_def)

lemma solid_cleanAddress: "filter solid (cleanAddress s) = filter solid s"
  by (simp add: cleanAddress_def solid_strip_trailing_comma solid_collapse_commas
      solid_replace_newlines solid_trim)

lemma letter_solid: "letter c \<Longrightarrow> solid c"
  by (auto simp add: letter_def solid_def isSpace_def lower_letters_def upper_letters_def)

lemma same_letter_letter: "same_letter c d \<Longrightarrow> letter d \<Longrightarrow> letter c"
  by (auto simp add: same_letter_def letter_def dest: set_zip_leftD set_zip_rightD)

lemma occurs_gives_solid:
  assumes "occurs_ignoring_case token address" and "token \<noteq> []" and "letter (hd token)"
  shows "\<exists>c \<in> set address. solid c"
proof -
  from assms(1) obtain before mid after where
    a: "address = before @ mid @ after" and m: "list_all2 same_letter mid token"
    by (auto simp add: occurs_ignoring_case_def)
  from m assms(2) obtain c cs d ds where "mid = c # cs" "token = d # ds" "same_letter c d"
    by (cases mid; cases token) auto
  with assms(3) have "letter c" by (auto intro: same_letter_letter)
  with a \<open>mid = c # cs\<close> show ?thesis by (auto intro: letter_solid)
qed

lemma region_name_letters: "region_name r \<noteq> [] \<and> letter (hd (region_name r))"
  by (cases r) (simp_all add: region_name_def letter_def lower_letters_def upper_letters_def)

lemma extractState_solid:
  assumes "extractState address \<noteq> Unknown"
  shows "\<exists>c \<in> set address. solid c"
proof (cases "find (\<lambda>r. occurs_ignoring_case (region_name r) address) region_order")
  case (Some r)
  then have "occurs_ignoring_case (region_name r) address"
    by (auto simp add: find_Some_iff)
  then show ?thesis using region_name_letters [of r] by (auto intro: occurs_gives_solid)
next
  case None
  with assms have "occurs_ignoring_case ''singapore'' address \<or> occurs_ignoring_case ''dubai'' address"
    by (auto simp add: extractState_def first_state_find includes_lower case_eval split: if_splits)
  moreover have "letter (hd ''singapore'')" "letter (hd ''dubai'')"
    by (simp_all add: letter_def lower_letters_def)
  ultimately show ?thesis by (auto intro: occurs_gives_solid)
qed

lemma cleanAddress_keeps_region:
  assumes "extractState address \<noteq> Unknown"
  shows "cleanAddress address \<noteq> []"
proof -
  from assms obtain c where "c \<in> set address" "solid c"
    using extractState_solid by blast
  then have "filter solid address \<noteq> []" by (auto simp add: filter_empty_conv)
  then have "filter solid (cleanAddress address) \<noteq> []" by (simp add: solid_cleanAddress)
  then show ?thesis by auto
qed

lemma clean_row_property:
  "propertyState (clean_row yr raw) \<noteq> Unknown \<Longrightarrow> propertyAddress (clean_row yr raw) \<noteq> []"
  by (auto simp add: clean_row_def Let_def cleanAddress_keeps_region split: if_splits)

lemma processData_interstate_property:
  "\<forall>r \<in> set (fst (processData e rawData yr st)). isInterstate r \<longrightarrow> propertyAddress r \<noteq> []"
proof (intro ballI impI)
  fix r assume "r \<in> set (fst (processData e rawData yr st))" and i: "isInterstate r"
  then obtain raw st' where r: "r = fst (geocode_row e (clean_row yr raw) st')"
    by (blast dest: processData_rows)
  with i have "propertyState (clean_row yr raw) \<noteq> Unknown"
    by (simp add: geocode_row_interstate)
  then have "propertyAddress (clean_row yr raw) \<noteq> []" by (rule clean_row_property)
  with r show "propertyAddress r \<noteq> []" by (simp add: geocode_row_keeps)
qed

section \<open>The interstate insight\<close>

lemma round_ratio_finite: "\<exists>m ex. round_ratio n d = Finite m ex"
  by (simp add: round_ratio_def Let_def)

lemma js_div_finite: "b \<noteq> 0 \<Longrightarrow> \<exists>m ex. js_div a b = Finite m ex"
  using round_ratio_finite [of a b] by (auto simp add: js_div_def)

lemma js_times_finite: "\<exists>m' ex'. js_times (Finite m ex) c = Finite m' ex'"
proof (cases "m * c = 0")
  case True
  then show ?thesis by (simp add: js_times_def)
next
  case False
  obtain m' ex' where "round_ratio (m * c) 1 = Finite m' ex'"
    using round_ratio_finite by blast
  with False show ?thesis by (simp add: js_times_def)
qed

lemma toFixed1_value:
  "toFixed1 (Finite m ex) = Tenths (nat \<lfloor>10 * number_value (Finite m ex) + 1 / 2\<rfloor>)"
proof (cases "0 \<le> ex")
  case True
  have "10 * (of_nat m * 2 powi ex) + 1 / 2 = (of_int (int (10 * m * 2 ^ nat ex)) + 1 / 2 :: rat)"
    using True by (simp add: power_int_def)
  also have "\<lfloor>\<dots>\<rfloor> = int (10 * m * 2 ^ nat ex)"
    by (rule floor_unique) simp_all
  finally have "nat \<lfloor>10 * (of_nat m * 2 powi ex) + 1 / 2 :: rat\<rfloor> = 10 * m * 2 ^ nat ex"
    by (simp only: nat_int)
  with True show ?thesis by (simp add: toFixed1_def number_value_def)
next
  case False
  let ?D = "(2::nat) ^ nat (- ex)"
  have D: "0 < ?D" by simp
  have "10 * (of_nat m * 2 powi ex) + 1 / 2 = (of_int (int (20 * m + ?D)) / of_int (int (2 * ?D)) :: rat)"
    using False by (simp add: power_int_def field_simps)
  also have "\<lfloor>\<dots>\<rfloor> = int (20 * m + ?D) div int (2 * ?D)"
    by (rule floor_divide_of_int_eq)
  also have "\<dots> = int ((20 * m + ?D) div (2 * ?D))"
    by (simp add: zdiv_int)
  finally have "nat \<lfloor>10 * (of_nat m * 2 powi ex) + 1 / 2 :: rat\<rfloor> = (20 * m + ?D) div (2 * ?D)"
    by (simp only: nat_int)
  with False show ?thesis by (simp add: toFixed1_def number_value_def)
qed

lemma fixed_gt_round1:
  "fixed_gt (toFixed1 (Finite m ex)) c \<longleftrightarrow> of_nat c < round1 (number_value (Finite m ex))"
proof -
  let ?n = "\<lfloor>10 * number_value (Finite m ex) + 1 / 2\<rfloor>"
  have "0 \<le> number_value (Finite m ex)" by (simp add: number_value_def)
  then have nn: "0 \<le> ?n" by simp
  have "fixed_gt (toFixed1 (Finite m ex)) c \<longleftrightarrow> int (10 * c) < ?n"
    by (simp add: toFixed1_value fixed_gt_def zless_nat_eq_int_zless)
  also have "\<dots> \<longleftrightarrow> (of_int (int (10 * c)) :: rat) < of_int ?n"
    by (simp only: of_int_less_iff)
  also have "\<dots> \<longleftrightarrow> of_nat c < round1 (number_value (Finite m ex))"
    by (simp add: round1_def field_simps)
  finally show ?thesis .
qed

lemma interstate_insight_emitted:
  "interstate_insight sales props \<noteq> [] \<longleftrightarrow>
     fixed_gt (toFixed1 (js_times (js_div sales props) 100)) 30"
  by (simp add: interstate_insight_def Let_def)

lemma interstate_emitted_generateInsights:
  "interstate_emitted (generateInsights data a) \<longleftrightarrow>
     interstate_insight (interstateSales a) (totalProperties a) \<noteq> []"
  by (auto simp add: interstate_emitted_def generateInsights_def interstate_insight_def
      flow_insight_def investment_insight_def international_insight_def Let_def)

text \<open>
  What the rule does for any two counts, also for those that no list of processed
  records yields: with no property and some interstate sale the quotient is
  infinite, and the insight is emitted.
\<close>

lemma interstate_rule_exact:
  "interstate_emitted (generateInsights data a) \<longleftrightarrow>
     (if totalProperties a = 0 then interstateSales a \<noteq> 0
      else 30 < round1 (number_value (js_times (js_div (interstateSales a) (totalProperties a)) 100)))"
proof (cases "totalProperties a = 0")
  case True
  then show ?thesis
    by (simp add: interstate_emitted_generateInsights interstate_insight_emitted js_div_def
        js_times_def toFixed1_def fixed_gt_def)
next
  case False
  then obtain m ex where "js_div (interstateSales a) (totalProperties a) = Finite m ex"
    using js_div_finite by blast
  moreover obtain m' ex' where "js_times (Finite m ex) 100 = Finite m' ex'"
    using js_times_finite by blast
  ultimately show ?thesis
    using False fixed_gt_round1 [of m' ex' 30]
    by (simp add: interstate_emitted_generateInsights interstate_insight_emitted)
qed

text \<open>
  Binary64 rounding shows at an exact tie: 601 of 2000 is 30.05 per cent, the
  computed product lies just below it and is formatted as 30.0.
\<close>

lemma interstate_tie_rounds_down: "interstate_insight 601 2000 = []"
  by (simp add: interstate_insight_def js_div_def js_times_def round_ratio_def
      round_half_even_def toFixed1_def fixed_gt_def Let_def bits.simps)

lemma counts_generateAnalytics:
  "totalProperties (generateAnalytics data) = length (filter (\<lambda>d. propertyAddress d \<noteq> []) data)"
  "interstateSales (generateAnalytics data) = length (filter isInterstate data)"
  "insights (generateAnalytics data) =
     generateInsights data ((generateAnalytics data)\<lparr>insights := []\<rparr>)"
  by (simp_all add: generateAnalytics_def Let_def)

lemma interstate_needs_property:
  assumes "\<forall>r \<in> set data. isInterstate r \<longrightarrow> propertyAddress r \<noteq> []"
  shows "interstateSales (generateAnalytics data) \<le> totalProperties (generateAnalytics data)"
proof -
  have "filter isInterstate data = filter isInterstate (filter (\<lambda>d. propertyAddress d \<noteq> []) data)"
    using assms by (auto intro: filter_cong)
  then have "length (filter isInterstate data) \<le> length (filter (\<lambda>d. propertyAddress d \<noteq> []) data)"
    by (metis length_filter_le)
  then show ?thesis by (simp add: counts_generateAnalytics)
qed

text \<open>
  C7. For records in which every interstate sale has a property address, as all
  processed records have (\<open>processData_interstate_property\<close>): the interstate
  insight is emitted exactly when there is a property and the computed rate,
  rounded to one decimal, exceeds 30; with no property it is not emitted. For 4
  interstate sales of 10 properties it is emitted, for 2 of 10 it is not.
\<close>

theorem interstate_insight_rule:
  assumes "\<forall>r \<in> set data. isInterstate r \<longrightarrow> propertyAddress r \<noteq> []"
  shows
   "(interstate_emitted (insights (generateAnalytics data)) \<longleftrightarrow>
       totalProperties (generateAnalytics data) \<noteq> 0 \<and>
       30 < round1 (number_value (js_times (js_div (interstateSales (generateAnalytics data))
                                                  (totalProperties (generateAnalytics data))) 100))) \<and>
    (totalProperties (generateAnalytics data) = 0 \<longrightarrow>
       \<not> interstate_emitted (insights (generateAnalytics data))) \<and>
    (\<forall>records a. interstateSales a = 4 \<and> totalProperties a = 10 \<longrightarrow>
       interstate_emitted (generateInsights records a)) \<and>
    (\<forall>records a. interstateSales a = 2 \<and> totalProperties a = 10 \<longrightarrow>
       \<not> interstate_emitted (generateInsights records a))"
proof -
  let ?a = "generateAnalytics data"
  have le: "interstateSales ?a \<le> totalProperties ?a"
    using assms by (rule interstate_needs_property)
  have exact: "interstate_emitted (insights ?a) \<longleftrightarrow>
     (if totalProperties ?a = 0 then interstateSales ?a \<noteq> 0
      else 30 < round1 (number_value (js_times (js_div (interstateSales ?a) (totalProperties ?a)) 100)))"
    using interstate_rule_exact [of data "?a\<lparr>insights := []\<rparr>"]
    by (simp add: counts_generateAnalytics(3))
  have first: "interstate_emitted (insights ?a) \<longleftrightarrow>
       totalProperties ?a \<noteq> 0 \<and>
       30 < round1 (number_value (js_times (js_div (interstateSales ?a) (totalProperties ?a)) 100))"
    using exact le by auto
  have four: "interstate_insight 4 10 \<noteq> []"
    by (simp add: interstate_insight_def js_div_def js_times_def round_ratio_def
        round_half_even_def toFixed1_def fixed_gt_def Let_def bits.simps)
  have two: "interstate_insight 2 10 = []"
    by (simp add: interstate_insight_def js_div_def js_times_def round_ratio_def
        round_half_even_def toFixed1_def fixed_gt_def Let_def bits.simps)
  from first four two show ?thesis
    by (auto simp add: interstate_emitted_generateInsights)
qed

theorem interstate_insight_rule_witness:
  "isInterstate (investor ''Ann'' QLD NSW) \<and> propertyAddress (investor ''Ann'' QLD NSW) \<noteq> [] \<and>
   interstate_emitted (insights (generateAnalytics [investor ''Ann'' QLD NSW])) \<and>
   totalProperties (generateAnalytics [investor ''Ann'' QLD NSW]) \<noteq> 0"
proof -
  have i: "isInterstate (investor ''Ann'' QLD NSW)"
    and p: "propertyAddress (investor ''Ann'' QLD NSW) \<noteq> []"
    by (simp_all add: investor_def)
  then have inv: "\<forall>r \<in> set [investor ''Ann'' QLD NSW]. isInterstate r \<longrightarrow> propertyAddress r \<noteq> []"
    by simp
  have counts: "interstateSales (generateAnalytics [investor ''Ann'' QLD NSW]) = 1"
    "totalProperties (generateAnalytics [investor ''Ann'' QLD NSW]) = 1"
    using i p by (simp_all add: counts_generateAnalytics)
  have "interstate_insight 1 1 \<noteq> []"
    by (simp add: interstate_insight_def js_div_def js_times_def round_ratio_def
        round_half_even_def toFixed1_def fixed_gt_def Let_def bits.simps)
  then have e: "interstate_emitted (insights (generateAnalytics [investor ''Ann'' QLD NSW]))"
    using counts
    by (simp add: counts_generateAnalytics(3) interstate_emitted_generateInsights)
  with interstate_insight_rule [OF inv]
  have "totalProperties (generateAnalytics [investor ''Ann'' QLD NSW]) \<noteq> 0"
    by blast
  with i p e show ?thesis by blast
qed

end
